theory Spec2Isabelle
  imports Complex_Main
begin

section \<open>Numbers and library functions used by the tracker screen\<close>

text \<open>
  The run tracker of \<^verbatim>\<open>src/app/tracker.tsx\<close> computes with JavaScript numbers.
  They are modelled by the real numbers: every operation is the exact one, there is no
  rounding, no \<^verbatim>\<open>NaN\<close> and no infinity. Counters that only ever hold whole
  numbers (the elapsed seconds, handles) are natural numbers.
\<close>

record LatLng =
  latitude :: real
  longitude :: real

text \<open>\<^verbatim>\<open>const toRad = (deg: number) => (deg * Math.PI) / 180\<close>\<close>

definition toRad :: "real \<Rightarrow> real" where
  "toRad deg = (deg * pi) / 180"

text \<open>
  \<^verbatim>\<open>Math.atan2(y, x)\<close> on real arguments: the angle of the point \<open>(x, y)\<close>, in
  \<open>(-\<pi>, \<pi>]\<close>, and \<open>0\<close> at the origin.
\<close>

definition atan2 :: "real \<Rightarrow> real \<Rightarrow> real" where
  "atan2 y x =
     (if 0 < x then arctan (y / x)
      else if x < 0 then (if 0 \<le> y then arctan (y / x) + pi else arctan (y / x) - pi)
      else if 0 < y then pi / 2
      else if y < 0 then - (pi / 2)
      else 0)"

text \<open>
  \<^verbatim>\<open>function haversineMeters(a: LatLng, b: LatLng)\<close>, line by line. The source calls
  \<^verbatim>\<open>Math.sqrt\<close> on \<open>c\<close> and on \<open>1 - c\<close>; lemma \<open>haversine_radicand\<close> below shows that
  both lie in \<open>[0, 1]\<close> for all real coordinates, so the square root is only ever taken
  of a non-negative number.
\<close>

definition haversineMeters :: "LatLng \<Rightarrow> LatLng \<Rightarrow> real" where
  "haversineMeters a b =
     (let R = 6371000;
          dLat = toRad (latitude b - latitude a);
          dLon = toRad (longitude b - longitude a);
          lat1 = toRad (latitude a);
          lat2 = toRad (latitude b);
          sinDLat = sin (dLat / 2);
          sinDLon = sin (dLon / 2);
          c = sinDLat * sinDLat + cos lat1 * cos lat2 * sinDLon * sinDLon;
          d = 2 * atan2 (sqrt c) (sqrt (1 - c))
      in R * d)"

text \<open>The radicand \<open>c\<close> of \<open>haversineMeters\<close>, named for the lemmas about it.\<close>

definition haversine_c :: "LatLng \<Rightarrow> LatLng \<Rightarrow> real" where
  "haversine_c a b =
     sin (toRad (latitude b - latitude a) / 2) * sin (toRad (latitude b - latitude a) / 2)
     + cos (toRad (latitude a)) * cos (toRad (latitude b))
       * sin (toRad (longitude b - longitude a) / 2) * sin (toRad (longitude b - longitude a) / 2)"

text \<open>
  The formula as the specification writes it, on angles in radians:
  \<open>a = sin\<^sup>2(\<Delta>lat/2) + cos(lat1)\<cdot>cos(lat2)\<cdot>sin\<^sup>2(\<Delta>lon/2)\<close>,
  \<open>c = 2\<cdot>atan2(\<surd>a, \<surd>(1-a))\<close>, \<open>distance = R\<cdot>c\<close> with \<open>R = 6,371,000\<close>.
\<close>

definition spec_haversine :: "real \<Rightarrow> real \<Rightarrow> real \<Rightarrow> real \<Rightarrow> real" where
  "spec_haversine lat1 lon1 lat2 lon2 =
     (let a = (sin ((lat2 - lat1) / 2))\<^sup>2 + cos lat1 * cos lat2 * (sin ((lon2 - lon1) / 2))\<^sup>2;
          c = 2 * atan2 (sqrt a) (sqrt (1 - a))
      in 6371000 * c)"

subsection \<open>Formatting\<close>

text \<open>
  \<^verbatim>\<open>Math.floor\<close>, \<^verbatim>\<open>Math.round\<close> (halves go up) and the remainder operator
  \<^verbatim>\<open>%\<close>, whose result has the sign of the dividend.
\<close>

definition Math_floor :: "real \<Rightarrow> int" where
  "Math_floor x = \<lfloor>x\<rfloor>"

definition Math_round :: "real \<Rightarrow> int" where
  "Math_round x = \<lfloor>x + 1 / 2\<rfloor>"

definition Math_trunc :: "real \<Rightarrow> int" where
  "Math_trunc x = (if 0 \<le> x then \<lfloor>x\<rfloor> else \<lceil>x\<rceil>)"

definition js_rem :: "real \<Rightarrow> real \<Rightarrow> real" where
  "js_rem x y = x - y * of_int (Math_trunc (x / y))"

text \<open>
  \<^verbatim>\<open>toString()\<close> of a whole number: its decimal digits, with a minus sign when
  negative. (JavaScript switches to exponent notation from \<open>10\<^sup>2\<^sup>1\<close> on; the
  model covers the whole numbers below that.)
\<close>

definition digit_char :: "nat \<Rightarrow> char" where
  "digit_char d = ''0123456789'' ! d"

fun digits10 :: "nat \<Rightarrow> string" where
  "digits10 n = (if n < 10 then [digit_char n] else digits10 (n div 10) @ [digit_char (n mod 10)])"

declare digits10.simps [simp del]

definition toString :: "int \<Rightarrow> string" where
  "toString i = (if i < 0 then CHR ''-'' # digits10 (nat (- i)) else digits10 (nat i))"

text \<open>\<^verbatim>\<open>s.padStart(n, "0")\<close>\<close>

definition padStart :: "nat \<Rightarrow> char \<Rightarrow> string \<Rightarrow> string" where
  "padStart n c s = replicate (n - length s) c @ s"

text \<open>\<^verbatim>\<open>function formatPace(minPerKm: number)\<close>\<close>

definition formatPace :: "real \<Rightarrow> string" where
  "formatPace minPerKm =
     (let totalSec = minPerKm * 60;
          m = Math_floor (totalSec / 60);
          s = Math_round (js_rem totalSec 60);
          mm = padStart 2 (CHR ''0'') (toString m);
          ss = padStart 2 (CHR ''0'') (toString s)
      in mm @ '':'' @ ss)"

text \<open>
  The pace of the component, shown on the screen and in the summary of \<^verbatim>\<open>stopRun\<close>:
  \<^verbatim>\<open>distanceKm > 0 ? elapsedSec / 60 / distanceKm : 0\<close> with
  \<^verbatim>\<open>distanceKm = distanceMeters / 1000\<close>, and its display
  \<^verbatim>\<open>distanceKm > 0 ? formatPace(pace) : "--:--"\<close>.
\<close>

definition paceMinPerKm :: "nat \<Rightarrow> real \<Rightarrow> real" where
  "paceMinPerKm elapsed meters =
     (let distanceKm = meters / 1000
      in if 0 < distanceKm then real elapsed / 60 / distanceKm else 0)"

definition formattedPace :: "nat \<Rightarrow> real \<Rightarrow> string" where
  "formattedPace elapsed meters =
     (if 0 < meters / 1000 then formatPace (paceMinPerKm elapsed meters) else ''--:--'')"

section \<open>The tracker screen as a state machine\<close>

datatype TrackerStatus = Idle | Running | Paused

record Region = LatLng +
  latitudeDelta :: real
  longitudeDelta :: real

text \<open>
  The persisted record \<^verbatim>\<open>Run = { id, dateISO, distanceMeters, durationSec }\<close>.
  Two fields are renamed: \<open>id\<close> is a constant of HOL and \<open>distanceMeters\<close> is also a
  state variable of the screen.
\<close>

record Run =
  run_id :: string
  dateISO :: string
  run_distanceMeters :: real
  durationSec :: nat

text \<open>
  The values that the two buttons of the ``Save this run?'' alert close over: the
  \<^verbatim>\<open>distanceMeters\<close>, \<^verbatim>\<open>elapsedSec\<close> and \<^verbatim>\<open>routeCoords\<close> of the render in which
  Stop was pressed.
\<close>

record SaveDialog =
  dlg_distanceMeters :: real
  dlg_elapsedSec :: nat
  dlg_routeCoords :: "LatLng list"

text \<open>
  \<^verbatim>\<open>startRun\<close> and \<^verbatim>\<open>resumeRun\<close> are asynchronous: each \<^verbatim>\<open>await\<close> ends a
  turn of the event loop, and other events may be handled before the awaited call
  completes. A task names the call an invocation is waiting for.
\<close>

datatype task = StartPermission | StartPosition | StartWatch | ResumePermission | ResumeWatch

text \<open>
  The state of the screen: the six \<^verbatim>\<open>useState\<close> variables, the two refs, and the
  part of the environment the handlers act on. \<open>subscriptions\<close> are the location
  subscriptions returned by \<^verbatim>\<open>watchPositionAsync\<close> and not yet removed, \<open>intervals\<close>
  the timers created by \<^verbatim>\<open>setInterval\<close> and not yet cleared; handles are numbered from
  \<open>nextHandle\<close>. \<open>pending\<close> holds the invocations of \<^verbatim>\<open>startRun\<close> and
  \<^verbatim>\<open>resumeRun\<close> that are waiting, \<open>dialog\<close> the open ``Save this run?'' alert,
  \<open>alerts\<close> the titles of the alerts shown so far, \<open>runs\<close> the run collection of
  the application context (\<open>initTracker rs\<close> is the screen as it is mounted when
  the collection is \<open>rs\<close>).
\<close>

record Tracker =
  status :: TrackerStatus
  routeCoords :: "LatLng list"
  elapsedSec :: nat
  distanceMeters :: real
  initialRegion :: "Region option"
  isRequestingPerms :: bool
  watchSubRef :: "nat option"
  timerRef :: "nat option"
  mounted :: bool
  subscriptions :: "nat list"
  intervals :: "nat list"
  nextHandle :: nat
  pending :: "task list"
  dialog :: "SaveDialog option"
  alerts :: "string list"
  runs :: "Run list"

definition initTracker :: "Run list \<Rightarrow> Tracker" where
  "initTracker rs =
     \<lparr>status = Idle, routeCoords = [], elapsedSec = 0, distanceMeters = 0,
      initialRegion = None, isRequestingPerms = False, watchSubRef = None, timerRef = None,
      mounted = True, subscriptions = [], intervals = [], nextHandle = 1, pending = [],
      dialog = None, alerts = [], runs = rs\<rparr>"

text \<open>
  A call of a \<^verbatim>\<open>useState\<close> setter. React discards the update once the component has
  been unmounted.
\<close>

definition setState :: "(Tracker \<Rightarrow> Tracker) \<Rightarrow> Tracker \<Rightarrow> Tracker" where
  "setState f s = (if mounted s then f s else s)"

definition alert :: "string \<Rightarrow> Tracker \<Rightarrow> Tracker" where
  "alert title s = s\<lparr>alerts := alerts s @ [title]\<rparr>"

text \<open>
  \<^verbatim>\<open>const [runs, setRuns] = useState<Run[]>([])\<close> of \<^verbatim>\<open>AppProvider\<close> in
  \<^verbatim>\<open>context/AppContext.tsx\<close>, which the screen gets from \<^verbatim>\<open>useApp()\<close>: the state
  setter, called with an updater. \<^verbatim>\<open>AppProvider\<close> wraps the whole application
  (\<^verbatim>\<open>app/_layout.tsx\<close>) and stays mounted when the tracker screen is unmounted, so the
  update is applied whether or not the screen is. The effect of \<^verbatim>\<open>AppProvider\<close> that
  writes \<open>runs\<close> to storage runs when \<open>runs\<close> has changed and is not part of the
  state kept here.
\<close>

definition setRuns :: "(Run list \<Rightarrow> Run list) \<Rightarrow> Tracker \<Rightarrow> Tracker" where
  "setRuns f s = s\<lparr>runs := f (runs s)\<rparr>"

subsection \<open>Helpers of the component\<close>

definition clearTimer :: "Tracker \<Rightarrow> Tracker" where
  "clearTimer s =
     (case timerRef s of
        None \<Rightarrow> s
      | Some t \<Rightarrow> s\<lparr>intervals := removeAll t (intervals s), timerRef := None\<rparr>)"

definition stopLocationUpdates :: "Tracker \<Rightarrow> Tracker" where
  "stopLocationUpdates s =
     (case watchSubRef s of
        None \<Rightarrow> s
      | Some h \<Rightarrow> s\<lparr>subscriptions := removeAll h (subscriptions s), watchSubRef := None\<rparr>)"

definition resetSession :: "Tracker \<Rightarrow> Tracker" where
  "resetSession s =
     setState (\<lambda>s. s\<lparr>status := Idle, routeCoords := [], elapsedSec := 0,
                       distanceMeters := 0, initialRegion := None\<rparr>) s"

definition startTimer :: "Tracker \<Rightarrow> Tracker" where
  "startTimer s =
     (let s1 = clearTimer s; t = nextHandle s1
      in s1\<lparr>timerRef := Some t, intervals := intervals s1 @ [t], nextHandle := Suc t\<rparr>)"

text \<open>The callback of the interval: \<^verbatim>\<open>setElapsedSec((prev) => prev + 1)\<close>.\<close>

definition tick :: "Tracker \<Rightarrow> Tracker" where
  "tick s = setState (\<lambda>s. s\<lparr>elapsedSec := elapsedSec s + 1\<rparr>) s"

text \<open>
  The callback given to \<^verbatim>\<open>watchPositionAsync\<close>, the same in \<^verbatim>\<open>startRun\<close> and in
  \<^verbatim>\<open>resumeRun\<close>: the updater of \<^verbatim>\<open>setRouteCoords\<close> reads the last point, calls
  \<^verbatim>\<open>setDistanceMeters\<close> when the increment is positive, and appends the point.
  Callbacks are processed one at a time, each updater running once on the state the
  previous one left.
\<close>

definition onLocation :: "LatLng \<Rightarrow> Tracker \<Rightarrow> Tracker" where
  "onLocation coord s =
     setState (\<lambda>s.
       (case routeCoords s of
          [] \<Rightarrow> s\<lparr>routeCoords := [coord]\<rparr>
        | _ # _ \<Rightarrow>
            (let prev = routeCoords s;
                 lastp = last prev;
                 increment = haversineMeters lastp coord;
                 s1 = (if 0 < increment
                       then s\<lparr>distanceMeters := distanceMeters s + increment\<rparr> else s)
             in s1\<lparr>routeCoords := prev @ [coord]\<rparr>))) s"

subsection \<open>Start, pause, resume, stop\<close>

text \<open>
  \<^verbatim>\<open>requestLocationPermission\<close> up to its \<^verbatim>\<open>await\<close>, and from the answer on: the
  alert when the answer is not \<^verbatim>\<open>"granted"\<close>, then the \<^verbatim>\<open>finally\<close> block. The
  result of the function is \<open>granted\<close> itself.
\<close>

definition requestLocationPermission_begin :: "Tracker \<Rightarrow> Tracker" where
  "requestLocationPermission_begin s = setState (\<lambda>s. s\<lparr>isRequestingPerms := True\<rparr>) s"

definition requestLocationPermission_end :: "bool \<Rightarrow> Tracker \<Rightarrow> Tracker" where
  "requestLocationPermission_end granted s =
     (let s1 = (if \<not> granted then alert ''Permission needed'' s else s)
      in setState (\<lambda>s. s\<lparr>isRequestingPerms := False\<rparr>) s1)"

definition await :: "task \<Rightarrow> Tracker \<Rightarrow> Tracker" where
  "await t s = s\<lparr>pending := pending s @ [t]\<rparr>"

text \<open>
  What \<^verbatim>\<open>startRun\<close> and \<^verbatim>\<open>resumeRun\<close> do once \<^verbatim>\<open>watchPositionAsync\<close> has
  returned the subscription \<open>sub\<close>, which is active from then on: store it in the
  ref, set the status, start the timer.
\<close>

definition watching :: "Tracker \<Rightarrow> Tracker" where
  "watching s =
     (let sub = nextHandle s;
          s1 = s\<lparr>subscriptions := subscriptions s @ [sub], nextHandle := Suc sub\<rparr>;
          s2 = s1\<lparr>watchSubRef := Some sub\<rparr>;
          s3 = setState (\<lambda>s. s\<lparr>status := Running\<rparr>) s2
      in startTimer s3)"

text \<open>\<^verbatim>\<open>startRun\<close>, one definition for each stretch between two \<^verbatim>\<open>await\<close>s.\<close>

definition startRun :: "Tracker \<Rightarrow> Tracker" where
  "startRun s = await StartPermission (requestLocationPermission_begin s)"

definition startRun_permission :: "bool \<Rightarrow> Tracker \<Rightarrow> Tracker" where
  "startRun_permission granted s =
     (let s1 = requestLocationPermission_end granted s
      in if \<not> granted then s1 else await StartPosition s1)"

definition startRun_position :: "LatLng \<Rightarrow> Tracker \<Rightarrow> Tracker" where
  "startRun_position firstCoord s =
     (let s1 = setState (\<lambda>s. s\<lparr>routeCoords := [firstCoord]\<rparr>) s;
          s2 = setState (\<lambda>s. s\<lparr>initialRegion :=
                 Some \<lparr>latitude = latitude firstCoord, longitude = longitude firstCoord,
                       latitudeDelta = 1 / 100, longitudeDelta = 1 / 100\<rparr>\<rparr>) s1
      in await StartWatch s2)"

definition startRun_watching :: "Tracker \<Rightarrow> Tracker" where
  "startRun_watching s = watching s"

definition pauseRun :: "Tracker \<Rightarrow> Tracker" where
  "pauseRun s = setState (\<lambda>s. s\<lparr>status := Paused\<rparr>) (clearTimer (stopLocationUpdates s))"

definition resumeRun :: "Tracker \<Rightarrow> Tracker" where
  "resumeRun s = await ResumePermission (requestLocationPermission_begin s)"

definition resumeRun_permission :: "bool \<Rightarrow> Tracker \<Rightarrow> Tracker" where
  "resumeRun_permission granted s =
     (let s1 = requestLocationPermission_end granted s
      in if \<not> granted then s1 else await ResumeWatch s1)"

definition resumeRun_watching :: "Tracker \<Rightarrow> Tracker" where
  "resumeRun_watching s = watching s"

text \<open>\<^verbatim>\<open>const hasRoute = routeCoords.length > 1\<close>\<close>

definition hasRoute :: "Tracker \<Rightarrow> bool" where
  "hasRoute s = (1 < length (routeCoords s))"

text \<open>
  \<^verbatim>\<open>stopRun\<close>. Its only \<^verbatim>\<open>await\<close> is on \<^verbatim>\<open>stopLocationUpdates\<close>, which has
  finished when it returns, so the handler runs to its end before any other event. The
  message of the alert is not kept, only its title and what its buttons close over.
\<close>

definition stopRun :: "Tracker \<Rightarrow> Tracker" where
  "stopRun s =
     (if status s = Idle then resetSession s
      else
        (let s1 = clearTimer (stopLocationUpdates s)
         in if \<not> hasRoute s \<or> distanceMeters s < 10
            then resetSession (alert ''Run too short'' s1)
            else (alert ''Save this run?'' s1)
                   \<lparr>dialog := Some \<lparr>dlg_distanceMeters = distanceMeters s,
                                     dlg_elapsedSec = elapsedSec s,
                                     dlg_routeCoords = routeCoords s\<rparr>\<rparr>))"

text \<open>The ``Discard'' button of the alert.\<close>

definition discardRun :: "Tracker \<Rightarrow> Tracker" where
  "discardRun s = resetSession (s\<lparr>dialog := None\<rparr>)"

text \<open>
  The ``Save'' button of the alert. \<open>now\<close> is the value of \<^verbatim>\<open>Date.now()\<close> and \<open>isoNow\<close>
  that of \<^verbatim>\<open>new Date().toISOString()\<close> when it is pressed. The navigation to the
  summary screen that follows does not touch the state and is left out.
\<close>

definition saveRun :: "int \<Rightarrow> string \<Rightarrow> Tracker \<Rightarrow> Tracker" where
  "saveRun now isoNow s =
     (case dialog s of
        None \<Rightarrow> s
      | Some d \<Rightarrow>
          (let newRun = \<lparr>run_id = toString now, dateISO = isoNow,
                         run_distanceMeters = dlg_distanceMeters d,
                         durationSec = dlg_elapsedSec d\<rparr>;
               s1 = setRuns (\<lambda>prev. newRun # prev) (s\<lparr>dialog := None\<rparr>)
           in resetSession s1))"

text \<open>The cleanup of the \<^verbatim>\<open>useEffect\<close>, run when the screen is unmounted.\<close>

definition unmount :: "Tracker \<Rightarrow> Tracker" where
  "unmount s = (clearTimer (stopLocationUpdates s))\<lparr>mounted := False\<rparr>"

subsection \<open>Events\<close>

text \<open>
  What can happen to the screen. A button can be pressed when it is rendered and enabled:
  Start when the status is \<open>idle\<close> and no permission request is running, Pause when
  \<open>running\<close>, Resume when \<open>paused\<close>, Stop when \<open>running\<close> or \<open>paused\<close>; the
  ``Save this run?'' alert is modal, and its two buttons can be pressed while it is
  open, also after the screen has been unmounted (their handlers are closures of the
  alert, not of the rendered screen). An awaited call completes (or fails) for an
  invocation that is waiting for it. A subscription that has not been removed delivers
  a position; a second passes, and every interval that has not been cleared fires.
\<close>

datatype event =
    PressStart | PressPause | PressResume | PressStop
  | PressDiscard | PressSave int string
  | Unmount
  | PermissionResult task bool
  | PositionResult LatLng
  | WatchResult task
  | Failure task
  | Location nat LatLng
  | Second

definition interactive :: "Tracker \<Rightarrow> bool" where
  "interactive s = (mounted s \<and> dialog s = None)"

definition resolve :: "task \<Rightarrow> (Tracker \<Rightarrow> Tracker) \<Rightarrow> Tracker \<Rightarrow> Tracker" where
  "resolve t k s = (if t \<in> set (pending s) then k (s\<lparr>pending := remove1 t (pending s)\<rparr>) else s)"

fun step :: "Tracker \<Rightarrow> event \<Rightarrow> Tracker" where
  "step s PressStart =
     (if interactive s \<and> status s = Idle \<and> \<not> isRequestingPerms s then startRun s else s)"
| "step s PressPause =
     (if interactive s \<and> status s = Running then pauseRun s else s)"
| "step s PressResume =
     (if interactive s \<and> status s = Paused then resumeRun s else s)"
| "step s PressStop =
     (if interactive s \<and> (status s = Running \<or> status s = Paused) then stopRun s else s)"
| "step s PressDiscard = (if dialog s \<noteq> None then discardRun s else s)"
| "step s (PressSave now isoNow) = (if dialog s \<noteq> None then saveRun now isoNow s else s)"
| "step s Unmount = (if mounted s then unmount s else s)"
| "step s (PermissionResult t granted) =
     (case t of
        StartPermission \<Rightarrow> resolve t (startRun_permission granted) s
      | ResumePermission \<Rightarrow> resolve t (resumeRun_permission granted) s
      | _ \<Rightarrow> s)"
| "step s (PositionResult coord) = resolve StartPosition (startRun_position coord) s"
| "step s (WatchResult t) =
     (case t of
        StartWatch \<Rightarrow> resolve t startRun_watching s
      | ResumeWatch \<Rightarrow> resolve t resumeRun_watching s
      | _ \<Rightarrow> s)"
| "step s (Failure t) =
     (case t of
        StartPermission \<Rightarrow> resolve t (setState (\<lambda>s. s\<lparr>isRequestingPerms := False\<rparr>)) s
      | ResumePermission \<Rightarrow> resolve t (setState (\<lambda>s. s\<lparr>isRequestingPerms := False\<rparr>)) s
      | _ \<Rightarrow> resolve t (\<lambda>s. s) s)"
| "step s (Location h coord) = (if h \<in> set (subscriptions s) then onLocation coord s else s)"
| "step s Second = foldl (\<lambda>s t. tick s) s (intervals s)"

definition run :: "Tracker \<Rightarrow> event list \<Rightarrow> Tracker" where
  "run s es = foldl step s es"

subsection \<open>Projections, an invariant and the sessions used as examples\<close>

text \<open>
  The session of the specification (status, route, distance, elapsed seconds) and the
  resources a handler may hold (subscriptions, intervals and the two refs).
\<close>

definition session :: "Tracker \<Rightarrow> TrackerStatus \<times> LatLng list \<times> real \<times> nat" where
  "session s = (status s, routeCoords s, distanceMeters s, elapsedSec s)"

definition resources :: "Tracker \<Rightarrow> nat list \<times> nat list \<times> nat option \<times> nat option" where
  "resources s = (subscriptions s, intervals s, watchSubRef s, timerRef s)"

text \<open>
  The only interval that can be active is the one in \<open>timerRef\<close>, and a mounted screen
  whose status is \<open>paused\<close> has none.
\<close>

definition timer_inv :: "Tracker \<Rightarrow> bool" where
  "timer_inv s =
     (intervals s = (case timerRef s of None \<Rightarrow> [] | Some t \<Rightarrow> [t])
      \<and> (if mounted s \<and> status s = Paused then timerRef s = None else True))"

text \<open>
  Start is pressed, permission is granted, the first position arrives and the
  subscription is opened; Resume is pressed and the same happens without the position.
\<close>

definition start_events :: "event list" where
  "start_events =
     [PressStart, PermissionResult StartPermission True,
      PositionResult \<lparr>latitude = 0, longitude = 0\<rparr>, WatchResult StartWatch]"

definition resume_events :: "event list" where
  "resume_events = [PressResume, PermissionResult ResumePermission True, WatchResult ResumeWatch]"

text \<open>
  Start is pressed a second time while the first invocation waits for the position (the
  button is enabled again once the permission request has returned); Resume is pressed
  twice in a row (the button is never disabled).
\<close>

definition double_start :: "event list" where
  "double_start =
     [PressStart, PermissionResult StartPermission True,
      PressStart, PermissionResult StartPermission True,
      PositionResult \<lparr>latitude = 0, longitude = 0\<rparr>,
      PositionResult \<lparr>latitude = 0, longitude = 0\<rparr>,
      WatchResult StartWatch, WatchResult StartWatch]"

definition double_resume :: "event list" where
  "double_resume =
     [PressResume, PressResume,
      PermissionResult ResumePermission True, PermissionResult ResumePermission True,
      WatchResult ResumeWatch, WatchResult ResumeWatch]"

text \<open>
  A run is started, moves to \<open>(0, 1)\<close> and is paused. Resume is pressed and, while
  its permission request is pending, Stop: the ``Save this run?'' alert opens. The
  resume then completes behind the alert, Discard is pressed, and two seconds pass.
\<close>

definition resume_race :: "event list" where
  "resume_race =
     start_events @
     [Location 1 \<lparr>latitude = 0, longitude = 1\<rparr>, PressPause,
      PressResume, PressStop,
      PermissionResult ResumePermission True, WatchResult ResumeWatch,
      PressDiscard, Second, Second]"

text \<open>
  A whole run: started at \<open>(0, 0)\<close>, one position delivered at \<open>(0, 1)\<close> by the
  subscription \<open>h\<close>, stopped, and saved when the clock reads \<open>now\<close>. \<open>two_saves\<close> are
  two such runs saved at the same reading of the clock.
\<close>

definition one_run :: "nat \<Rightarrow> int \<Rightarrow> string \<Rightarrow> event list" where
  "one_run h now isoNow =
     start_events @ [Location h \<lparr>latitude = 0, longitude = 1\<rparr>, PressStop, PressSave now isoNow]"

definition two_saves :: "event list" where
  "two_saves =
     one_run 1 1000 ''1970-01-01T00:00:01.000Z'' @ one_run 3 1000 ''1970-01-01T00:00:01.000Z''"

text \<open>
  Three sessions: a running one of 9 metres with two route points, a running one of
  1500 metres and 600 seconds whose collection already holds a run, and a paused one.
\<close>

definition short_session :: Tracker where
  "short_session =
     (initTracker [])\<lparr>status := Running,
        routeCoords := [\<lparr>latitude = 0, longitude = 0\<rparr>, \<lparr>latitude = 0, longitude = 1 / 10000\<rparr>],
        elapsedSec := 30, distanceMeters := 9, watchSubRef := Some 1, timerRef := Some 2,
        subscriptions := [1], intervals := [2], nextHandle := 3\<rparr>"

definition old_run :: Run where
  "old_run = \<lparr>run_id = ''999'', dateISO = ''1970-01-01T00:00:00.999Z'',
               run_distanceMeters = 5000, durationSec = 1800\<rparr>"

definition long_session :: Tracker where
  "long_session =
     (initTracker [old_run])\<lparr>status := Running,
        routeCoords := [\<lparr>latitude = 0, longitude = 0\<rparr>, \<lparr>latitude = 0, longitude = 1 / 100\<rparr>],
        elapsedSec := 600, distanceMeters := 1500, watchSubRef := Some 1, timerRef := Some 2,
        subscriptions := [1], intervals := [2], nextHandle := 3\<rparr>"

definition paused_session :: Tracker where
  "paused_session =
     (initTracker [])\<lparr>status := Paused,
        routeCoords := [\<lparr>latitude = 0, longitude = 0\<rparr>, \<lparr>latitude = 0, longitude = 1\<rparr>],
        elapsedSec := 600, distanceMeters := 1500, nextHandle := 3\<rparr>"

section \<open>The haversine distance\<close>

lemma haversine_unfold:
  "haversineMeters a b =
     6371000 * (2 * atan2 (sqrt (haversine_c a b)) (sqrt (1 - haversine_c a b)))"
  by (simp add: haversineMeters_def haversine_c_def Let_def)

lemma toRad_diff: "toRad (x - y) = toRad x - toRad y"
  by (simp add: toRad_def field_simps)


lemma haversine_c_commute: "haversine_c a b = haversine_c b a"
proof -
  have 1: "toRad (latitude a - latitude b) / 2 = - (toRad (latitude b - latitude a) / 2)"
    by (simp add: toRad_def field_simps)
  have 2: "toRad (longitude a - longitude b) / 2 = - (toRad (longitude b - longitude a) / 2)"
    by (simp add: toRad_def field_simps)
  show ?thesis
    unfolding haversine_c_def 1 2 sin_minus by (simp add: algebra_simps)
qed

lemma sin_sq_half: "sin (x / 2) * sin (x / 2) = (1 - cos x) / 2" for x :: real
  using cos_double_sin [of "x / 2"] by (simp add: power2_eq_square)

lemma haversine_c_alt:
  "haversine_c a b =
     (1 - cos (toRad (latitude b) - toRad (latitude a))) / 2 * (1 - sin (toRad (longitude b - longitude a) / 2) * sin (toRad (longitude b - longitude a) / 2))
     + (1 + cos (toRad (latitude b) + toRad (latitude a))) / 2 * (sin (toRad (longitude b - longitude a) / 2) * sin (toRad (longitude b - longitude a) / 2))"
  unfolding haversine_c_def toRad_diff sin_sq_half [of "toRad (latitude b) - toRad (latitude a)"]
    cos_add cos_diff
  by (simp add: field_simps)

lemma convex01:
  fixes p q t :: real
  assumes "0 \<le> p" "p \<le> 1" "0 \<le> q" "q \<le> 1" "0 \<le> t" "t \<le> 1"
  shows "0 \<le> p * (1 - t) + q * t" "p * (1 - t) + q * t \<le> 1"
proof -
  show "0 \<le> p * (1 - t) + q * t" using assms by simp
  have "p * (1 - t) \<le> 1 * (1 - t)" using assms by (intro mult_right_mono) auto
  moreover have "q * t \<le> 1 * t" using assms by (intro mult_right_mono) auto
  ultimately show "p * (1 - t) + q * t \<le> 1" by simp
qed

lemma half_range:
  fixes c :: real
  assumes "- 1 \<le> c" "c \<le> 1"
  shows "0 \<le> (1 - c) / 2" "(1 - c) / 2 \<le> 1" "0 \<le> (1 + c) / 2" "(1 + c) / 2 \<le> 1"
  using assms by simp_all

lemmas half_cos_range = half_range [OF cos_ge_minus_one cos_le_one]

lemma haversine_radicand: "0 \<le> haversine_c a b \<and> haversine_c a b \<le> 1"
proof -
  let ?t = "sin (toRad (longitude b - longitude a) / 2) * sin (toRad (longitude b - longitude a) / 2)"
  have t: "0 \<le> ?t" "?t \<le> 1"
    unfolding sin_sq_half by (rule half_cos_range)+
  show ?thesis
    unfolding haversine_c_alt
    using convex01 [OF half_cos_range(1,2) half_cos_range(3,4) t] by simp
qed

lemma atan2_nonneg: "0 \<le> y \<Longrightarrow> 0 \<le> x \<Longrightarrow> 0 \<le> atan2 y x"
  by (auto simp: atan2_def)

lemma haversine_nonneg: "0 \<le> haversineMeters a b"
  using haversine_radicand [of a b]
  by (simp add: haversine_unfold atan2_nonneg)

lemma haversine_same_point: "haversineMeters P P = 0"
  by (simp add: haversineMeters_def toRad_def atan2_def)

lemma haversine_is_spec: "haversineMeters a b =
   spec_haversine (toRad (latitude a)) (toRad (longitude a)) (toRad (latitude b)) (toRad (longitude b))"
  by (simp add: haversineMeters_def spec_haversine_def Let_def toRad_diff power2_eq_square algebra_simps)

subsection \<open>One degree of longitude on the equator\<close>

lemma sin_cubic_bounds:
  fixes x :: real
  assumes "0 \<le> x"
  shows "x - x ^ 3 / 6 - x ^ 5 / 120 \<le> sin x" "sin x \<le> x - x ^ 3 / 6 + x ^ 5 / 120"
proof -
  have s: "(\<Sum>m<5. sin_coeff m * x ^ m) = x - x ^ 3 / 6"
    by (simp add: sin_coeff_def lessThan_nat_numeral fact_numeral)
  have "\<bar>sin x - (x - x ^ 3 / 6)\<bar> \<le> inverse (fact 5) * \<bar>x\<bar> ^ 5"
    using Maclaurin_sin_bound [of x 5] unfolding s .
  moreover have "inverse (fact 5) * \<bar>x\<bar> ^ 5 = x ^ 5 / 120"
    using assms by (simp add: fact_numeral)
  ultimately have b: "\<bar>sin x - (x - x ^ 3 / 6)\<bar> \<le> x ^ 5 / 120" by simp
  from b show "x - x ^ 3 / 6 - x ^ 5 / 120 \<le> sin x" by linarith
  from b show "sin x \<le> x - x ^ 3 / 6 + x ^ 5 / 120" by linarith
qed

lemma pi_bounds: "3114 / 1000 \<le> pi" "pi \<le> 3173 / 1000"
proof -
  define x :: real where "x = pi / 6"
  have sx: "sin x = 1 / 2" by (simp add: x_def sin_30)
  have x0: "0 \<le> x" by (simp add: x_def)
  have xu: "x \<le> 2 / 3" using pi_less_4 by (simp add: x_def)
  have xl: "1 / 2 \<le> x" using sin_x_le_x [OF x0] sx by simp
  note sb = sin_cubic_bounds [OF x0, unfolded sx]
  have p3l: "1 / 8 \<le> x ^ 3"
  proof -
    have "(1 / 2) ^ 3 \<le> x ^ 3" using xl by (intro power_mono) auto
    then show ?thesis by (simp add: power3_eq_cube)
  qed
  have p5u: "x ^ 5 \<le> 14 / 100"
  proof -
    have "x ^ 5 \<le> (2 / 3) ^ 5" using xu x0 by (intro power_mono) auto
    also have "\<dots> \<le> 14 / 100" by (simp add: power_numeral_reduce)
    finally show ?thesis .
  qed
  have p3u: "x ^ 3 \<le> 3 / 10"
  proof -
    have "x ^ 3 \<le> (2 / 3) ^ 3" using xu x0 by (intro power_mono) auto
    also have "\<dots> \<le> 3 / 10" by (simp add: power_numeral_reduce)
    finally show ?thesis .
  qed
  have lo: "519 / 1000 \<le> x" using sb(2) p3l p5u by linarith
  have xu2: "x \<le> 552 / 1000" using sb(1) p3u p5u by linarith
  have q3u: "x ^ 3 \<le> 169 / 1000"
  proof -
    have "x ^ 3 \<le> (552 / 1000) ^ 3" using xu2 x0 by (intro power_mono) auto
    also have "\<dots> \<le> 169 / 1000" by (simp add: power_numeral_reduce)
    finally show ?thesis .
  qed
  have q5u: "x ^ 5 \<le> 6 / 100"
  proof -
    have "x ^ 5 \<le> (552 / 1000) ^ 5" using xu2 x0 by (intro power_mono) auto
    also have "\<dots> \<le> 6 / 100" by (simp add: power_numeral_reduce)
    finally show ?thesis .
  qed
  have xu3: "x \<le> 5287 / 10000" using sb(1) q3u q5u by linarith
  show "3114 / 1000 \<le> pi" using lo by (simp add: x_def)
  show "pi \<le> 3173 / 1000" using xu3 by (simp add: x_def)
qed

lemma haversine_one_degree:
  "haversineMeters \<lparr>latitude = 0, longitude = 0\<rparr> \<lparr>latitude = 0, longitude = 1\<rparr> = 6371000 * pi / 180"
proof -
  let ?h = "pi / 360"
  have h: "0 < ?h" "?h < pi / 2" by simp_all
  have s: "0 < sin ?h" using h by (intro sin_gt_zero2) 
  have c: "0 < cos ?h" using h by (intro cos_gt_zero)
  have sq: "sqrt (sin ?h * sin ?h) = sin ?h" using s by simp
  have "1 - sin ?h * sin ?h = cos ?h * cos ?h"
    using sin_cos_squared_add [of ?h] by (simp add: power2_eq_square)
  then have cq: "sqrt (1 - sin ?h * sin ?h) = cos ?h" using c by simp
  have "atan2 (sin ?h) (cos ?h) = arctan (tan ?h)"
    using c by (simp add: atan2_def tan_def)
  also have "\<dots> = ?h" using h by (intro arctan_tan) auto
  finally have a: "atan2 (sin ?h) (cos ?h) = ?h" .
  have hc: "haversine_c \<lparr>latitude = 0, longitude = 0\<rparr> \<lparr>latitude = 0, longitude = 1\<rparr> = sin ?h * sin ?h"
    by (simp add: haversine_c_def toRad_def)
  show ?thesis
    unfolding haversine_unfold hc sq cq a by simp
qed

lemma haversine_one_degree_bound:
  "\<bar>haversineMeters \<lparr>latitude = 0, longitude = 0\<rparr> \<lparr>latitude = 0, longitude = 1\<rparr> - 111195\<bar>
     \<le> 111195 / 100"
proof -
  have "111195 - 111195 / 100 \<le> 6371000 * pi / 180" using pi_bounds(1) by simp
  moreover have "6371000 * pi / 180 \<le> 111195 + 111195 / 100" using pi_bounds(2) by simp
  ultimately show ?thesis unfolding haversine_one_degree by linarith
qed

text \<open>
  Claim C3. \<open>haversineMeters\<close> is the haversine formula of the specification with
  \<open>R = 6,371,000\<close> metres, applied to the coordinates converted to radians; the
  distance from a point to itself is \<open>0\<close>; and the distance from \<open>(0, 0)\<close> to
  \<open>(0, 1)\<close> is within one percent of 111,195 metres.
\<close>

theorem haversineMeters_formula:
  "haversineMeters a b =
     spec_haversine (toRad (latitude a)) (toRad (longitude a))
                    (toRad (latitude b)) (toRad (longitude b))
   \<and> haversineMeters P P = 0
   \<and> \<bar>haversineMeters \<lparr>latitude = 0, longitude = 0\<rparr> \<lparr>latitude = 0, longitude = 1\<rparr> - 111195\<bar>
       \<le> 111195 / 100"
  using haversine_is_spec [of a b] haversine_same_point [of P] haversine_one_degree_bound
  by blast

text \<open>
  Claim C10. \<open>haversineMeters\<close> is commutative: the distance from \<open>a\<close> to \<open>b\<close> is
  the distance from \<open>b\<close> to \<open>a\<close>, for all coordinates.
\<close>

theorem haversineMeters_commute: "haversineMeters a b = haversineMeters b a"
  by (simp add: haversine_unfold haversine_c_commute)

section \<open>Formatting the pace\<close>

lemma digits10_small: "n < 10 \<Longrightarrow> digits10 n = [digit_char n]"
  by (subst digits10.simps) simp

lemma digits10_large: "10 \<le> n \<Longrightarrow> digits10 n = digits10 (n div 10) @ [digit_char (n mod 10)]"
  by (subst digits10.simps) simp

lemmas toString_eval = toString_def digits10_large digits10_small digit_char_def

lemma formatPace_5_9958: "formatPace (59958 / 10000) = ''05:60''"
proof -
  have r: "js_rem (59958 / 10000 * 60) 60 = 59748 / 1000"
    by (simp add: js_rem_def Math_trunc_def)
  have m: "Math_floor (59958 / 10000 * 60 / 60) = 5"
    by (simp add: Math_floor_def)
  have s: "Math_round (59748 / 1000) = 60"
    by (simp add: Math_round_def)
  show ?thesis
    unfolding formatPace_def Let_def r m s
    by (simp add: toString_eval padStart_def)
qed

lemma formatPace_400_seconds: "formatPace (20 / 3) = ''06:40''"
proof -
  have r: "js_rem (20 / 3 * 60) 60 = 40"
    by (simp add: js_rem_def Math_trunc_def)
  have m: "Math_floor (20 / 3 * 60 / 60) = 6"
    by (simp add: Math_floor_def)
  have s: "Math_round 40 = 40"
    by (simp add: Math_round_def)
  show ?thesis
    unfolding formatPace_def Let_def r m s
    by (simp add: toString_eval padStart_def)
qed

lemma pace_example:
  "paceMinPerKm 600 1500 = 20 / 3" "formattedPace 600 1500 = ''06:40''"
proof -
  show p: "paceMinPerKm 600 1500 = 20 / 3" by (simp add: paceMinPerKm_def)
  show "formattedPace 600 1500 = ''06:40''"
    by (simp add: formattedPace_def p formatPace_400_seconds)
qed

text \<open>
  Claim C9. There is a non-negative pace for which \<open>formatPace\<close> prints \<open>60\<close> in the
  seconds field instead of carrying into the minutes: for 5.9958 minutes per kilometre
  the minutes are 5, the rounded seconds are 60, and the text is \<open>05:60\<close>.
\<close>

theorem formatPace_seconds_sixty:
  "(0::real) \<le> 59958 / 10000
   \<and> Math_floor (59958 / 10000 * 60 / 60) = 5
   \<and> Math_round (js_rem (59958 / 10000 * 60) 60) = 60
   \<and> formatPace (59958 / 10000) = ''05:60''"
proof -
  have r: "js_rem (59958 / 10000 * 60) 60 = 59748 / 1000"
    by (simp add: js_rem_def Math_trunc_def)
  have "Math_round (js_rem (59958 / 10000 * 60) 60) = 60"
    unfolding r by (simp add: Math_round_def)
  moreover have "Math_floor (59958 / 10000 * 60 / 60) = 5"
    by (simp add: Math_floor_def)
  ultimately show ?thesis using formatPace_5_9958 by simp
qed

subsection \<open>Decimal strings determine the number\<close>

lemma digit_char_inj: "a < 10 \<Longrightarrow> b < 10 \<Longrightarrow> digit_char a = digit_char b \<Longrightarrow> a = b"
proof -
  assume a: "a < 10" and b: "b < 10" and e: "digit_char a = digit_char b"
  have d: "distinct ''0123456789''" by simp
  have l: "length ''0123456789'' = 10" by simp
  show "a = b"
    using e nth_eq_iff_index_eq [OF d, of a b] a b unfolding digit_char_def l by simp
qed

lemma digit_char_not_minus: "d < 10 \<Longrightarrow> digit_char d \<noteq> CHR ''-''"
proof -
  assume "d < 10"
  then have "digit_char d \<in> set ''0123456789''"
    unfolding digit_char_def by (intro nth_mem) simp
  then show ?thesis by auto
qed

lemma digits10_nonempty: "digits10 n \<noteq> []"
  by (subst digits10.simps) simp

lemma digits10_hd: "hd (digits10 n) \<noteq> CHR ''-''"
proof (induction n rule: digits10.induct)
  case (1 n)
  show ?case
  proof (cases "n < 10")
    case True
    then show ?thesis by (simp add: digits10_small digit_char_not_minus)
  next
    case False
    then show ?thesis
      using 1 digits10_nonempty [of "n div 10"] by (simp add: digits10_large)
  qed
qed

lemma digits10_inj: "digits10 m = digits10 n \<Longrightarrow> m = n"
proof (induction m arbitrary: n rule: digits10.induct)
  case (1 m)
  show ?case
  proof (cases "m < 10")
    case m: True
    show ?thesis
    proof (cases "n < 10")
      case True
      with m "1.prems" show ?thesis by (simp add: digits10_small digit_char_inj)
    next
      case False
      with m "1.prems" digits10_nonempty [of "n div 10"] show ?thesis
        by (simp add: digits10_small digits10_large)
    qed
  next
    case m: False
    show ?thesis
    proof (cases "n < 10")
      case True
      with m "1.prems" digits10_nonempty [of "m div 10"] show ?thesis
        by (simp add: digits10_small digits10_large)
    next
      case False
      with m "1.prems" have e: "digits10 (m div 10) = digits10 (n div 10)"
        "digit_char (m mod 10) = digit_char (n mod 10)"
        by (simp_all add: digits10_large)
      have "m div 10 = n div 10" using "1.IH" [OF m e(1)] .
      moreover have "m mod 10 = n mod 10" using e(2) by (intro digit_char_inj) simp_all
      ultimately show ?thesis by (metis div_mult_mod_eq)
    qed
  qed
qed

lemma toString_inj: "toString i = toString j \<Longrightarrow> i = j"
proof -
  assume e: "toString i = toString j"
  consider "i < 0" "j < 0" | "0 \<le> i" "0 \<le> j" | "i < 0" "0 \<le> j" | "0 \<le> i" "j < 0"
    by linarith
  then show ?thesis
  proof cases
    case 1
    with e have "nat (- i) = nat (- j)" by (simp add: toString_def digits10_inj)
    with 1 show ?thesis by simp
  next
    case 2
    with e have "nat i = nat j" by (simp add: toString_def digits10_inj)
    with 2 show ?thesis by simp
  next
    case 3
    with e have "CHR ''-'' # digits10 (nat (- i)) = digits10 (nat j)" by (simp add: toString_def)
    then have "hd (digits10 (nat j)) = CHR ''-''" by (metis list.sel(1))
    with digits10_hd show ?thesis by blast
  next
    case 4
    with e have "CHR ''-'' # digits10 (nat (- j)) = digits10 (nat i)" by (simp add: toString_def)
    then have "hd (digits10 (nat i)) = CHR ''-''" by (metis list.sel(1))
    with digits10_hd show ?thesis by blast
  qed
qed

lemma fresh_id:
  assumes "\<forall>r \<in> set rs. \<exists>t. t \<noteq> now \<and> run_id r = toString t"
  shows "toString now \<notin> run_id ` set rs"
  using assms toString_inj by (metis imageE)

section \<open>The route accumulator\<close>

lemma onLocation_distance_cases:
  "distanceMeters (onLocation coord s) = distanceMeters s
   \<or> (0 < haversineMeters (last (routeCoords s)) coord
      \<and> distanceMeters (onLocation coord s)
          = distanceMeters s + haversineMeters (last (routeCoords s)) coord)"
  by (simp add: onLocation_def setState_def Let_def split: list.splits)

lemma onLocation_distance_mono: "distanceMeters s \<le> distanceMeters (onLocation coord s)"
  using onLocation_distance_cases [of coord s] by auto

lemma step_Location_mono: "distanceMeters s \<le> distanceMeters (step s (Location h coord))"
  by (simp add: onLocation_distance_mono)

lemma run_append: "run s (es @ fs) = run (run s es) fs"
  by (simp add: run_def)

lemma run_Locations_mono:
  "distanceMeters s \<le> distanceMeters (run s (map (\<lambda>(h, c). Location h c) xs))"
proof (induction xs arbitrary: s)
  case Nil
  show ?case by (simp add: run_def)
next
  case (Cons x xs)
  obtain h c where x: "x = (h, c)" by (cases x)
  have "distanceMeters s \<le> distanceMeters (step s (Location h c))"
    by (rule step_Location_mono)
  also have "\<dots> \<le> distanceMeters (run (step s (Location h c)) (map (\<lambda>(h, c). Location h c) xs))"
    by (rule Cons.IH)
  finally show ?case by (simp add: run_def x)
qed

text \<open>
  Claim C1. A sampler callback never lowers \<open>distanceMeters\<close>, in whatever state it is
  processed (so in particular while the status is \<open>running\<close>); along any sequence of
  callbacks the value after a longer prefix is at least the value after a shorter one;
  and a callback leaves the value as it was or adds the distance from the last route
  point to the new one: what was accumulated before is not recomputed.
\<close>

theorem distance_monotone:
  "distanceMeters s \<le> distanceMeters (step s (Location h coord))
   \<and> distanceMeters (run s (map (\<lambda>(h, c). Location h c) xs))
       \<le> distanceMeters (run s (map (\<lambda>(h, c). Location h c) (xs @ ys)))
   \<and> (distanceMeters (step s (Location h coord)) = distanceMeters s
      \<or> distanceMeters (step s (Location h coord))
          = distanceMeters s + haversineMeters (last (routeCoords s)) coord)"
proof -
  have "distanceMeters (run s (map (\<lambda>(h, c). Location h c) xs))
       \<le> distanceMeters (run s (map (\<lambda>(h, c). Location h c) (xs @ ys)))"
    unfolding map_append run_append by (rule run_Locations_mono)
  moreover have "distanceMeters (step s (Location h coord)) = distanceMeters s
      \<or> distanceMeters (step s (Location h coord))
          = distanceMeters s + haversineMeters (last (routeCoords s)) coord"
    using onLocation_distance_cases [of coord s] by auto
  ultimately show ?thesis using step_Location_mono by blast
qed

text \<open>
  In the running session of 1500 metres, a position delivered by its subscription
  leaves the distance at 1500 metres or more.
\<close>

theorem distance_monotone_witness:
  "status long_session = Running
   \<and> 1500 \<le> distanceMeters (step long_session (Location 1 \<lparr>latitude = 0, longitude = 1\<rparr>))"
  using distance_monotone [of long_session 1 "\<lparr>latitude = 0, longitude = 1\<rparr>" "[]" "[]"]
  by (simp add: long_session_def initTracker_def)

text \<open>
  Claim C2. When a sampler callback delivers a coordinate to a mounted screen: if the
  route is empty, the route becomes that single point and the distance is unchanged;
  otherwise the point is appended whatever the increment is, and the increment is added
  to the distance only when it is greater than \<open>0\<close>.
\<close>

theorem addPoint:
  assumes "mounted s"
  shows "(if routeCoords s = []
          then routeCoords (onLocation coord s) = [coord]
             \<and> distanceMeters (onLocation coord s) = distanceMeters s
          else routeCoords (onLocation coord s) = routeCoords s @ [coord]
             \<and> distanceMeters (onLocation coord s)
                = (if 0 < haversineMeters (last (routeCoords s)) coord
                   then distanceMeters s + haversineMeters (last (routeCoords s)) coord
                   else distanceMeters s))"
  using assms by (simp add: onLocation_def setState_def Let_def split: list.splits)

text \<open>
  On the empty route the first point becomes the route; a point equal to the last one
  (increment \<open>0\<close>) is appended and the distance stays at 1500 metres.
\<close>

theorem addPoint_witness:
  "routeCoords (onLocation \<lparr>latitude = 0, longitude = 0\<rparr> (initTracker []))
     = [\<lparr>latitude = 0, longitude = 0\<rparr>]
   \<and> distanceMeters (onLocation \<lparr>latitude = 0, longitude = 0\<rparr> (initTracker [])) = 0
   \<and> routeCoords (onLocation \<lparr>latitude = 0, longitude = 1 / 100\<rparr> long_session)
       = [\<lparr>latitude = 0, longitude = 0\<rparr>, \<lparr>latitude = 0, longitude = 1 / 100\<rparr>,
          \<lparr>latitude = 0, longitude = 1 / 100\<rparr>]
   \<and> distanceMeters (onLocation \<lparr>latitude = 0, longitude = 1 / 100\<rparr> long_session) = 1500"
proof -
  have m: "mounted (initTracker [])" "mounted long_session"
    by (simp_all add: long_session_def initTracker_def)
  show ?thesis
    using addPoint [OF m(1), of "\<lparr>latitude = 0, longitude = 0\<rparr>"]
      addPoint [OF m(2), of "\<lparr>latitude = 0, longitude = 1 / 100\<rparr>"]
    by (simp add: long_session_def initTracker_def haversine_same_point)
qed

section \<open>Stop, and permission denied\<close>

lemmas handler_defs =
  setState_def alert_def setRuns_def clearTimer_def stopLocationUpdates_def resetSession_def
  startTimer_def tick_def requestLocationPermission_begin_def requestLocationPermission_end_def
  await_def watching_def startRun_def startRun_permission_def startRun_position_def
  startRun_watching_def pauseRun_def resumeRun_def resumeRun_permission_def
  resumeRun_watching_def hasRoute_def stopRun_def discardRun_def saveRun_def unmount_def
  interactive_def resolve_def

text \<open>
  Claim C4. When Stop is pressed on a session that is running or paused and whose route
  has fewer than 2 points or whose distance is below 10 metres, the run is rejected: the
  run collection is unchanged, no save dialog is opened (so a later Save does nothing),
  the user is told ``Run too short'', and the session is idle with an empty route,
  distance \<open>0\<close> and elapsed time \<open>0\<close>.
\<close>

theorem stop_rejects_short_run:
  assumes "interactive s" "status s = Running \<or> status s = Paused"
    and "length (routeCoords s) < 2 \<or> distanceMeters s < 10"
  shows "runs (step s PressStop) = runs s
       \<and> dialog (step s PressStop) = None
       \<and> runs (step (step s PressStop) (PressSave now isoNow)) = runs s
       \<and> status (step s PressStop) = Idle
       \<and> routeCoords (step s PressStop) = []
       \<and> distanceMeters (step s PressStop) = 0
       \<and> elapsedSec (step s PressStop) = 0
       \<and> alerts (step s PressStop) = alerts s @ [''Run too short'']"
  using assms
  by (auto simp: handler_defs Let_def split: option.splits)

text \<open>The session with 9 metres and two route points is rejected.\<close>

theorem stop_rejects_short_run_witness:
  "interactive short_session \<and> status short_session = Running
   \<and> length (routeCoords short_session) = 2 \<and> distanceMeters short_session = 9
   \<and> runs (step short_session PressStop) = []
   \<and> runs (step (step short_session PressStop) (PressSave 1000 ''1970-01-01T00:00:01.000Z'')) = []
   \<and> status (step short_session PressStop) = Idle
   \<and> routeCoords (step short_session PressStop) = []
   \<and> distanceMeters (step short_session PressStop) = 0
   \<and> elapsedSec (step short_session PressStop) = 0"
proof -
  have h: "interactive short_session"
    "status short_session = Running \<or> status short_session = Paused"
    "length (routeCoords short_session) < 2 \<or> distanceMeters short_session < 10"
    by (simp_all add: short_session_def initTracker_def interactive_def)
  show ?thesis
    using stop_rejects_short_run [OF h, of 1000 "''1970-01-01T00:00:01.000Z''"]
    by (simp add: short_session_def initTracker_def interactive_def)
qed

lemma denied_keeps:
  "session (startRun_permission False s) = session s"
  "resources (startRun_permission False s) = resources s"
  "pending (startRun_permission False s) = pending s"
  "session (resumeRun_permission False s) = session s"
  "resources (resumeRun_permission False s) = resources s"
  "pending (resumeRun_permission False s) = pending s"
  by (simp_all add: handler_defs session_def resources_def Let_def)

lemma press_keeps:
  "session (step s PressStart) = session s"
  "resources (step s PressStart) = resources s"
  "session (step s PressResume) = session s"
  "resources (step s PressResume) = resources s"
  by (simp_all add: handler_defs session_def resources_def Let_def)

lemma session_pending [simp]:
  "session (s\<lparr>pending := p\<rparr>) = session s" "resources (s\<lparr>pending := p\<rparr>) = resources s"
  by (simp_all add: session_def resources_def)

lemma denied_result_keeps:
  "session (step s (PermissionResult t False)) = session s"
  "resources (step s (PermissionResult t False)) = resources s"
  by (cases t; simp add: resolve_def denied_keeps)+

text \<open>
  Claim C7. When the permission request of a start or of a resume is answered with
  anything but granted, the action ends there: status, route, distance and elapsed
  seconds are what they were before the button was pressed, so are the subscriptions,
  the intervals and the two refs (nothing is opened, no timer is started), and the
  invocation waits for nothing more.
\<close>

theorem permission_denied_aborts:
  "session (step (step s PressStart) (PermissionResult StartPermission False)) = session s
   \<and> resources (step (step s PressStart) (PermissionResult StartPermission False)) = resources s
   \<and> session (step (step s PressResume) (PermissionResult ResumePermission False)) = session s
   \<and> resources (step (step s PressResume) (PermissionResult ResumePermission False)) = resources s
   \<and> pending (startRun_permission False s) = pending s
   \<and> pending (resumeRun_permission False s) = pending s"
  by (simp only: denied_result_keeps press_keeps denied_keeps simp_thms)

text \<open>
  A denied start from the initial state and a denied resume of the paused session: the
  alert is shown, nothing is pending, nothing else has changed.
\<close>

theorem permission_denied_aborts_witness:
  "status (step (step (initTracker []) PressStart) (PermissionResult StartPermission False)) = Idle
   \<and> alerts (step (step (initTracker []) PressStart) (PermissionResult StartPermission False))
       = [''Permission needed'']
   \<and> pending (step (step (initTracker []) PressStart) (PermissionResult StartPermission False)) = []
   \<and> session (step (step paused_session PressResume) (PermissionResult ResumePermission False))
       = (Paused, [\<lparr>latitude = 0, longitude = 0\<rparr>, \<lparr>latitude = 0, longitude = 1\<rparr>], 1500, 600)
   \<and> resources (step (step paused_session PressResume) (PermissionResult ResumePermission False))
       = ([], [], None, None)"
  using permission_denied_aborts [of "initTracker []"] permission_denied_aborts [of paused_session]
  by (simp add: handler_defs initTracker_def paused_session_def session_def resources_def)

section \<open>The timer\<close>

lemma timer_inv_init: "timer_inv (initTracker rs)"
  by (simp add: timer_inv_def initTracker_def)

lemma timer_inv_step: "timer_inv s \<Longrightarrow> timer_inv (step s e)"
proof (cases e)
  case Second
  have "\<And>s. timer_inv s \<Longrightarrow> timer_inv (foldl (\<lambda>s t. tick s) s ts)" for ts
    by (induction ts) (auto simp: timer_inv_def tick_def setState_def)
  moreover assume "timer_inv s"
  ultimately show ?thesis using Second by simp
next
  case (PermissionResult t g)
  assume "timer_inv s"
  then show ?thesis using PermissionResult
    by (cases t) (auto simp: timer_inv_def handler_defs Let_def split: option.splits)
next
  case (WatchResult t)
  assume "timer_inv s"
  then show ?thesis using WatchResult
    by (cases t) (auto simp: timer_inv_def handler_defs Let_def split: option.splits)
next
  case (Failure t)
  assume "timer_inv s"
  then show ?thesis using Failure
    by (cases t) (auto simp: timer_inv_def handler_defs Let_def split: option.splits)
next
  case (Location h c)
  assume "timer_inv s"
  then show ?thesis using Location
    by (auto simp: timer_inv_def onLocation_def setState_def Let_def split: list.splits)
qed (auto simp: timer_inv_def handler_defs Let_def split: option.splits)

lemma timer_inv_run: "timer_inv s \<Longrightarrow> timer_inv (run s es)"
  unfolding run_def by (induction es arbitrary: s) (auto intro: timer_inv_step)

lemma paused_Second:
  assumes "timer_inv s" "status s = Paused"
  shows "step s Second = s"
proof (cases "mounted s")
  case True
  with assms show ?thesis by (simp add: timer_inv_def)
next
  case False
  have "foldl (\<lambda>s t. tick s) s ts = s" for ts
    using False by (induction ts) (auto simp: tick_def setState_def)
  then show ?thesis by simp
qed

lemma Second_at_most_one:
  assumes "timer_inv s"
  shows "elapsedSec (step s Second) = elapsedSec s \<or> elapsedSec (step s Second) = elapsedSec s + 1"
  using assms by (auto simp: timer_inv_def tick_def setState_def split: option.splits)

lemma Seconds_running:
  assumes "mounted s" "intervals s = [t]"
  shows "run s (replicate n Second) = s\<lparr>elapsedSec := elapsedSec s + n\<rparr>"
  using assms
proof (induction n arbitrary: s)
  case 0
  then show ?case by (simp add: run_def)
next
  case (Suc n)
  have "step s Second = s\<lparr>elapsedSec := elapsedSec s + 1\<rparr>"
    using Suc.prems by (simp add: tick_def setState_def)
  moreover have "run (s\<lparr>elapsedSec := elapsedSec s + 1\<rparr>) (replicate n Second)
     = s\<lparr>elapsedSec := elapsedSec s + 1 + n\<rparr>"
    using Suc.IH [of "s\<lparr>elapsedSec := elapsedSec s + 1\<rparr>"] Suc.prems by simp
  ultimately show ?case by (simp add: run_def)
qed

lemma Seconds_stopped:
  assumes "intervals s = []"
  shows "run s (replicate n Second) = s"
  using assms by (induction n) (simp_all add: run_def)

lemma elapsed_other_events:
  "e \<noteq> Second \<Longrightarrow> elapsedSec (step s e) = elapsedSec s \<or> elapsedSec (step s e) = 0"
proof (cases e)
  case (PermissionResult t g)
  then show ?thesis by (cases t) (auto simp: handler_defs Let_def)
next
  case (WatchResult t)
  then show ?thesis by (cases t) (auto simp: handler_defs Let_def split: option.splits)
next
  case (Failure t)
  then show ?thesis by (cases t) (auto simp: handler_defs Let_def)
next
  case (Location h c)
  then show ?thesis by (auto simp: onLocation_def setState_def Let_def split: list.splits)
qed (auto simp: handler_defs Let_def split: option.splits)

lemma pause_stops_timer:
  "timer_inv s \<Longrightarrow> timerRef (pauseRun s) = None \<and> intervals (pauseRun s) = []"
  by (auto simp: timer_inv_def handler_defs split: option.splits)

lemma watching_starts_timer:
  "timer_inv s \<Longrightarrow> timerRef (watching s) = Some (Suc (nextHandle s))
     \<and> intervals (watching s) = [Suc (nextHandle s)]"
  by (auto simp: timer_inv_def handler_defs Let_def split: option.splits)

lemma run_start_events:
  "run (initTracker rs) start_events =
     (initTracker rs)\<lparr>status := Running, routeCoords := [\<lparr>latitude = 0, longitude = 0\<rparr>],
        initialRegion := Some \<lparr>latitude = 0, longitude = 0,
                               latitudeDelta = 1 / 100, longitudeDelta = 1 / 100\<rparr>,
        watchSubRef := Some 1, timerRef := Some 2, subscriptions := [1], intervals := [2],
        nextHandle := 3\<rparr>"
  by (simp add: run_def start_events_def initTracker_def handler_defs Let_def)

lemma run_ten_seconds:
  "run (run (initTracker rs) start_events) (replicate 10 Second)
     = (run (initTracker rs) start_events)\<lparr>elapsedSec := 10\<rparr>"
proof -
  have m: "mounted (run (initTracker rs) start_events)"
    "intervals (run (initTracker rs) start_events) = [2]"
    "elapsedSec (run (initTracker rs) start_events) = 0"
    unfolding run_start_events by (simp_all add: initTracker_def)
  show ?thesis
    using Seconds_running [OF m(1,2), of 10] by (simp add: m(3))
qed

lemma pause_scenario:
  "elapsedSec (run (initTracker rs)
      (start_events @ replicate 10 Second @ [PressPause] @ replicate 5 Second
        @ resume_events @ replicate 5 Second)) = 15"
proof -
  define s1 where "s1 = run (initTracker rs) start_events"
  have s1: "s1 = (initTracker rs)\<lparr>status := Running,
        routeCoords := [\<lparr>latitude = 0, longitude = 0\<rparr>],
        initialRegion := Some \<lparr>latitude = 0, longitude = 0,
                               latitudeDelta = 1 / 100, longitudeDelta = 1 / 100\<rparr>,
        watchSubRef := Some 1, timerRef := Some 2, subscriptions := [1], intervals := [2],
        nextHandle := 3\<rparr>"
    unfolding s1_def by (rule run_start_events)
  define s2 where "s2 = run s1 (replicate 10 Second)"
  have s2: "s2 = s1\<lparr>elapsedSec := 10\<rparr>"
    unfolding s2_def s1_def by (rule run_ten_seconds)
  define s3 where "s3 = run s2 [PressPause]"
  have s3: "s3 = s1\<lparr>elapsedSec := 10, status := Paused, watchSubRef := None, timerRef := None,
      subscriptions := [], intervals := []\<rparr>"
    by (simp add: s3_def s2 s1 run_def initTracker_def handler_defs)
  define s4 where "s4 = run s3 (replicate 5 Second)"
  have s4: "s4 = s3"
    unfolding s4_def by (rule Seconds_stopped) (simp add: s3)
  define s5 where "s5 = run s4 resume_events"
  have s5: "s5 = s1\<lparr>elapsedSec := 10, watchSubRef := Some 3, timerRef := Some 4,
      subscriptions := [3], intervals := [4], nextHandle := 5\<rparr>"
    by (simp add: s5_def s4 s3 s1 run_def resume_events_def initTracker_def handler_defs Let_def)
  define s6 where "s6 = run s5 (replicate 5 Second)"
  have s6: "s6 = s5\<lparr>elapsedSec := 15\<rparr>"
    unfolding s6_def by (subst Seconds_running [where t = 4]) (simp_all add: s5 s1 initTracker_def)
  have "elapsedSec s6 = 15" by (simp add: s6)
  then show ?thesis
    by (simp only: run_append s6_def s5_def s4_def s3_def s2_def s1_def)
qed

text \<open>
  What holds of pausing, in every state the screen can reach from its initial state by
  any sequence of events: while the status is \<open>paused\<close> a passing second changes
  nothing; a passing second adds at most one; no other event changes the elapsed
  seconds except by resetting them to \<open>0\<close>; pausing leaves no interval active, and
  the end of a resume leaves exactly the new one. Starting, 10 seconds, pausing, 5
  seconds, resuming and 5 more seconds give 15.
\<close>

lemma paused_time_not_counted:
  "elapsedSec (run (initTracker rs)
      (start_events @ replicate 10 Second @ [PressPause] @ replicate 5 Second
        @ resume_events @ replicate 5 Second)) = 15
   \<and> (status (run (initTracker rs) es) = Paused
        \<longrightarrow> step (run (initTracker rs) es) Second = run (initTracker rs) es)
   \<and> (elapsedSec (step (run (initTracker rs) es) Second) = elapsedSec (run (initTracker rs) es)
      \<or> elapsedSec (step (run (initTracker rs) es) Second) = elapsedSec (run (initTracker rs) es) + 1)
   \<and> (e \<noteq> Second \<longrightarrow> elapsedSec (step s e) = elapsedSec s \<or> elapsedSec (step s e) = 0)
   \<and> intervals (pauseRun (run (initTracker rs) es)) = []
   \<and> intervals (resumeRun_watching (run (initTracker rs) es))
       = [Suc (nextHandle (run (initTracker rs) es))]"
proof -
  have inv: "timer_inv (run (initTracker rs) es)"
    by (intro timer_inv_run timer_inv_init)
  show ?thesis
    using pause_scenario [of rs] paused_Second [OF inv] Second_at_most_one [OF inv]
      elapsed_other_events [of e s] pause_stops_timer [OF inv] watching_starts_timer [OF inv]
    by (simp add: resumeRun_watching_def)
qed

lemma one_degree_long: "\<not> 6371000 * pi / 180 < 10"
  using pi_bounds(1) by simp

lemma run_resume_race:
  "run (initTracker rs) resume_race =
     (initTracker rs)\<lparr>elapsedSec := 2, watchSubRef := Some 3, timerRef := Some 4,
        subscriptions := [3], intervals := [4], nextHandle := 5,
        alerts := [''Save this run?'']\<rparr>"
proof -
  define s1 where "s1 = run (initTracker rs) start_events"
  note s1 = run_start_events [of rs, folded s1_def]
  define s2 where "s2 = step s1 (Location 1 \<lparr>latitude = 0, longitude = 1\<rparr>)"
  have s2: "s2 = s1\<lparr>routeCoords := [\<lparr>latitude = 0, longitude = 0\<rparr>, \<lparr>latitude = 0, longitude = 1\<rparr>],
        distanceMeters := 6371000 * pi / 180\<rparr>"
    by (simp add: s2_def s1 initTracker_def onLocation_def setState_def Let_def haversine_one_degree)
  define s3 where "s3 = run s2 [PressPause, PressResume]"
  have s3: "s3 = s2\<lparr>status := Paused, watchSubRef := None, timerRef := None,
        subscriptions := [], intervals := [], isRequestingPerms := True,
        pending := [ResumePermission]\<rparr>"
    by (simp add: s3_def s2 s1 run_def initTracker_def handler_defs)
  define s4 where "s4 = step s3 PressStop"
  have s4: "s4 = s3\<lparr>alerts := [''Save this run?''],
        dialog := Some \<lparr>dlg_distanceMeters = 6371000 * pi / 180, dlg_elapsedSec = 0,
           dlg_routeCoords = [\<lparr>latitude = 0, longitude = 0\<rparr>, \<lparr>latitude = 0, longitude = 1\<rparr>]\<rparr>\<rparr>"
    using one_degree_long
    by (simp add: s4_def s3 s2 s1 initTracker_def handler_defs Let_def)
  define s5 where "s5 = run s4 [PermissionResult ResumePermission True, WatchResult ResumeWatch]"
  have s5: "s5 = s4\<lparr>status := Running, isRequestingPerms := False, pending := [],
        watchSubRef := Some 3, timerRef := Some 4, subscriptions := [3], intervals := [4],
        nextHandle := 5\<rparr>"
    by (simp add: s5_def s4 s3 s2 s1 run_def initTracker_def handler_defs Let_def)
  define s6 where "s6 = run s5 [PressDiscard, Second, Second]"
  have s6: "s6 = (initTracker rs)\<lparr>elapsedSec := 2, watchSubRef := Some 3, timerRef := Some 4,
        subscriptions := [3], intervals := [4], nextHandle := 5,
        alerts := [''Save this run?'']\<rparr>"
    by (simp add: s6_def s5 s4 s3 s2 s1 run_def initTracker_def handler_defs Let_def)
  have "run (initTracker rs) resume_race = s6"
    unfolding resume_race_def run_append s6_def s5_def s4_def s3_def s2_def s1_def
    by (simp add: run_def)
  then show ?thesis by (simp only: s6)
qed

text \<open>
  Claim C6 does not hold of the code: the elapsed seconds are also counted while no
  session is running. Stop is pressed while a resume is waiting for its permission;
  the resume completes behind the ``Save this run?'' alert and starts the timer, and
  Discard resets the session without clearing it (\<open>resetSession\<close> clears no timer).
  The screen is then idle with an interval and a subscription active, every passing
  second is counted, and the next start, which does not reset the elapsed seconds,
  begins at 2.
\<close>

theorem idle_timer_counts:
  "status (run (initTracker []) resume_race) = Idle
   \<and> intervals (run (initTracker []) resume_race) = [4]
   \<and> subscriptions (run (initTracker []) resume_race) = [3]
   \<and> elapsedSec (run (initTracker []) resume_race) = 2
   \<and> elapsedSec (step (run (initTracker []) resume_race) Second) = 3
   \<and> status (run (initTracker []) (resume_race @ start_events)) = Running
   \<and> elapsedSec (run (initTracker []) (resume_race @ start_events)) = 2"
  unfolding run_append run_resume_race
  by (simp add: run_def start_events_def initTracker_def handler_defs Let_def)

section \<open>Subscriptions\<close>

text \<open>
  Claim C8 does not hold of the code. When Start is pressed again while the first
  invocation of \<open>startRun\<close> waits for the position, both invocations open a
  subscription: two are active, the ref holds the second, and neither Stop nor
  unmounting removes the first. Two presses of Resume do the same.
\<close>

theorem double_start_two_subscriptions:
  "subscriptions (run (initTracker []) double_start) = [1, 3]
   \<and> watchSubRef (run (initTracker []) double_start) = Some 3
   \<and> subscriptions (run (initTracker []) (double_start @ [PressStop])) = [1]
   \<and> subscriptions (run (initTracker []) (double_start @ [Unmount])) = [1]
   \<and> subscriptions (run (initTracker []) (start_events @ [PressPause] @ double_resume)) = [3, 5]"
  by (simp add: run_def double_start_def double_resume_def start_events_def initTracker_def
        handler_defs Let_def)

section \<open>Saving a run\<close>

lemma stop_then_save:
  assumes "interactive s" "status s = Running \<or> status s = Paused"
    and "2 \<le> length (routeCoords s)" "10 \<le> distanceMeters s"
  shows "runs (step (step s PressStop) (PressSave now isoNow))
       = \<lparr>run_id = toString now, dateISO = isoNow,
          run_distanceMeters = distanceMeters s, durationSec = elapsedSec s\<rparr> # runs s"
  using assms by (auto simp: handler_defs Let_def split: option.splits)

text \<open>Save still prepends the record when the screen was unmounted with the alert open.\<close>

lemma save_after_unmount:
  assumes "interactive s" "status s = Running \<or> status s = Paused"
    and "2 \<le> length (routeCoords s)" "10 \<le> distanceMeters s"
  shows "runs (run s [PressStop, Unmount, PressSave now isoNow])
       = \<lparr>run_id = toString now, dateISO = isoNow,
          run_distanceMeters = distanceMeters s, durationSec = elapsedSec s\<rparr> # runs s"
  using assms by (auto simp: run_def handler_defs Let_def split: option.splits)

lemma run_one_run:
  assumes "mounted s" "dialog s = None" "status s = Idle" "\<not> isRequestingPerms s"
    and "pending s = []" "subscriptions s = []" "intervals s = []"
    and "watchSubRef s = None" "timerRef s = None" "distanceMeters s = 0"
  shows "run s (one_run (nextHandle s) now isoNow) =
     s\<lparr>routeCoords := [], elapsedSec := 0, initialRegion := None,
       nextHandle := Suc (Suc (nextHandle s)),
       alerts := alerts s @ [''Save this run?''],
       runs := \<lparr>run_id = toString now, dateISO = isoNow,
                 run_distanceMeters = 6371000 * pi / 180, durationSec = elapsedSec s\<rparr> # runs s\<rparr>"
proof -
  define s1 where "s1 = run s start_events"
  have s1: "s1 = s\<lparr>status := Running, routeCoords := [\<lparr>latitude = 0, longitude = 0\<rparr>],
        initialRegion := Some \<lparr>latitude = 0, longitude = 0,
                               latitudeDelta = 1 / 100, longitudeDelta = 1 / 100\<rparr>,
        watchSubRef := Some (nextHandle s), timerRef := Some (Suc (nextHandle s)),
        subscriptions := [nextHandle s], intervals := [Suc (nextHandle s)],
        nextHandle := Suc (Suc (nextHandle s))\<rparr>"
    using assms
    by (simp add: s1_def run_def start_events_def handler_defs Let_def)
  define s2 where "s2 = step s1 (Location (nextHandle s) \<lparr>latitude = 0, longitude = 1\<rparr>)"
  have s2: "s2 = s1\<lparr>routeCoords := [\<lparr>latitude = 0, longitude = 0\<rparr>, \<lparr>latitude = 0, longitude = 1\<rparr>],
        distanceMeters := 6371000 * pi / 180\<rparr>"
    using assms
    by (simp add: s2_def s1 onLocation_def setState_def Let_def haversine_one_degree)
  define s3 where "s3 = step s2 PressStop"
  have s3: "s3 = s2\<lparr>watchSubRef := None, timerRef := None, subscriptions := [], intervals := [],
        alerts := alerts s @ [''Save this run?''],
        dialog := Some \<lparr>dlg_distanceMeters = 6371000 * pi / 180, dlg_elapsedSec = elapsedSec s,
           dlg_routeCoords = [\<lparr>latitude = 0, longitude = 0\<rparr>, \<lparr>latitude = 0, longitude = 1\<rparr>]\<rparr>\<rparr>"
    using assms one_degree_long
    by (simp add: s3_def s2 s1 handler_defs Let_def)
  define s4 where "s4 = step s3 (PressSave now isoNow)"
  have s4: "s4 = s\<lparr>routeCoords := [], elapsedSec := 0, initialRegion := None,
       nextHandle := Suc (Suc (nextHandle s)),
       alerts := alerts s @ [''Save this run?''],
       runs := \<lparr>run_id = toString now, dateISO = isoNow,
                 run_distanceMeters = 6371000 * pi / 180, durationSec = elapsedSec s\<rparr> # runs s\<rparr>"
    using assms
    by (simp add: s4_def s3 s2 s1 handler_defs Let_def)
  have "run s (one_run (nextHandle s) now isoNow) = s4"
    unfolding one_run_def run_append s4_def s3_def s2_def s1_def by (simp add: run_def)
  then show ?thesis by (simp only: s4)
qed

text \<open>
  Claim C5, as the code has it. The id of the record is the decimal text of the clock
  reading \<^verbatim>\<open>Date.now()\<close> at the moment of saving, so two runs saved at the same
  reading get the same id: here two whole runs, each started, moved, stopped and saved
  when the clock reads 1000, leave a collection whose ids are not distinct.
\<close>

theorem two_saves_same_id:
  "\<not> distinct (map run_id (runs (run (initTracker []) two_saves)))"
proof -
  define a where "a = run (initTracker []) (one_run 1 1000 ''1970-01-01T00:00:01.000Z'')"
  have "a = run (initTracker []) (one_run (nextHandle (initTracker [])) 1000 ''1970-01-01T00:00:01.000Z'')"
    by (simp add: a_def initTracker_def)
  also have "\<dots> = (initTracker [])\<lparr>routeCoords := [], elapsedSec := 0, initialRegion := None,
       nextHandle := 3, alerts := [''Save this run?''],
       runs := [\<lparr>run_id = toString 1000, dateISO = ''1970-01-01T00:00:01.000Z'',
                 run_distanceMeters = 6371000 * pi / 180, durationSec = 0\<rparr>]\<rparr>"
    by (subst run_one_run) (simp_all add: initTracker_def)
  finally have a: "a = (initTracker [])\<lparr>routeCoords := [], elapsedSec := 0, initialRegion := None,
       nextHandle := 3, alerts := [''Save this run?''],
       runs := [\<lparr>run_id = toString 1000, dateISO = ''1970-01-01T00:00:01.000Z'',
                 run_distanceMeters = 6371000 * pi / 180, durationSec = 0\<rparr>]\<rparr>" .
  have n: "nextHandle a = 3" by (simp add: a)
  have b: "map run_id (runs (run a (one_run (nextHandle a) 1000 ''1970-01-01T00:00:01.000Z'')))
        = [toString 1000, toString 1000]"
    by (subst run_one_run) (simp_all add: a initTracker_def)
  have "run (initTracker []) two_saves
        = run a (one_run (nextHandle a) 1000 ''1970-01-01T00:00:01.000Z'')"
    unfolding n by (simp only: two_saves_def run_append a_def)
  with b have "map run_id (runs (run (initTracker []) two_saves)) = [toString 1000, toString 1000]"
    by simp
  then show ?thesis by simp
qed

text \<open>
  Claim C5, amended. When Stop is pressed on a running or paused session with at least
  2 route points and at least 10 metres, and Save is then pressed, the run collection
  gets a new first element: its id is the decimal text of the clock reading at that
  moment, its date the timestamp of that moment, its distance and duration the
  session's \<open>distanceMeters\<close> and \<open>elapsedSec\<close>; the same holds when the screen is
  unmounted between Stop and Save. The id differs from every id of the
  collection that is the text of another clock reading. For 1500 metres in 600 seconds
  the pace is \<open>(600 / 60) / 1.5 = 20 / 3\<close> minutes per kilometre and is shown as
  \<open>06:40\<close>.
\<close>

theorem save_prepends_run:
  assumes "interactive s" "status s = Running \<or> status s = Paused"
    and "2 \<le> length (routeCoords s)" "10 \<le> distanceMeters s"
  shows "runs (step (step s PressStop) (PressSave now isoNow))
           = \<lparr>run_id = toString now, dateISO = isoNow,
              run_distanceMeters = distanceMeters s, durationSec = elapsedSec s\<rparr> # runs s
       \<and> runs (run s [PressStop, Unmount, PressSave now isoNow])
           = \<lparr>run_id = toString now, dateISO = isoNow,
              run_distanceMeters = distanceMeters s, durationSec = elapsedSec s\<rparr> # runs s
       \<and> ((\<forall>r \<in> set (runs s). \<exists>t. t \<noteq> now \<and> run_id r = toString t)
            \<longrightarrow> toString now \<notin> run_id ` set (runs s))
       \<and> paceMinPerKm 600 1500 = 20 / 3
       \<and> formattedPace 600 1500 = ''06:40''"
  using stop_then_save [OF assms] save_after_unmount [OF assms]
    fresh_id [of "runs s" now] pace_example by blast

text \<open>
  The session of 1500 metres and 600 seconds, saved when the clock reads
  1700000000000: the record is put before the run the collection held, with a new id,
  and its pace is shown as \<open>06:40\<close>.
\<close>

theorem save_prepends_run_witness:
  "runs (step (step long_session PressStop) (PressSave 1700000000000 ''2023-11-14T22:13:20.000Z''))
     = [\<lparr>run_id = ''1700000000000'', dateISO = ''2023-11-14T22:13:20.000Z'',
         run_distanceMeters = 1500, durationSec = 600\<rparr>, old_run]
   \<and> ''1700000000000'' \<notin> run_id ` set (runs long_session)
   \<and> formattedPace (durationSec (hd (runs (step (step long_session PressStop)
          (PressSave 1700000000000 ''2023-11-14T22:13:20.000Z'')))))
        (run_distanceMeters (hd (runs (step (step long_session PressStop)
          (PressSave 1700000000000 ''2023-11-14T22:13:20.000Z''))))) = ''06:40''"
proof -
  have h: "interactive long_session"
    "status long_session = Running \<or> status long_session = Paused"
    "2 \<le> length (routeCoords long_session)" "10 \<le> distanceMeters long_session"
    by (simp_all add: long_session_def initTracker_def interactive_def)
  have t: "toString 1700000000000 = ''1700000000000''"
    by (simp add: toString_eval)
  have o: "toString 999 = ''999''"
    by (simp add: toString_eval)
  have r: "runs long_session = [old_run]"
    by (simp add: long_session_def initTracker_def)
  have f: "\<forall>r \<in> set (runs long_session). \<exists>t. t \<noteq> 1700000000000 \<and> run_id r = toString t"
    unfolding r using o by (auto simp: old_run_def intro!: exI [of _ 999])
  show ?thesis
    using save_prepends_run [OF h, of 1700000000000 "''2023-11-14T22:13:20.000Z''"] f
    by (simp add: t r long_session_def initTracker_def)
qed

end
